theory Spec2Isabelle
  imports Main "HOL-Library.Sublist" "HOL-Library.Product_Lexorder"
begin

section \<open>Data model\<close>

text \<open>
  A LangChain \<open>Document\<close>: a text body and a metadata dictionary. The metadata
  values the collectors write (\<open>source\<close>, \<open>competitor\<close>, \<open>title\<close>, \<open>url\<close>,
  \<open>publish_date\<close>, \<open>fetch_date\<close>) are strings, so the dictionary is a partial map from
  strings to strings; \<open>doc.metadata.get(k)\<close> is the application of the map to \<open>k\<close>,
  with \<open>None\<close> for an absent key.
\<close>

record document =
  page_content :: string
  metadata :: "string \<rightharpoonup> string"

text \<open>
  The exceptions the pipeline can meet: \<open>ValueError\<close>, raised by the date parsers of
  \<open>datetime\<close>; \<open>TypeError\<close>, raised by the comparison of a naive \<open>datetime\<close>
  with an aware one; and anything the Chroma client or the embedding service raises
  while reading or writing the index, kept with its message.
\<close>

datatype py_exception = ValueError | TypeError | BackendError string

text \<open>
  A naive or aware \<open>datetime\<close> value. Python orders two naive values by the tuple
  (year, month, day, hour, minute, second, microsecond), compared from the left;
  \<open>tzinfo\<close> holds the UTC offset of an aware value, in seconds.
\<close>

type_synonym date = "nat \<times> nat \<times> nat"

record datetime =
  year :: nat
  month :: nat
  day :: nat
  hour :: nat
  minute :: nat
  second :: nat
  microsecond :: nat
  tzinfo :: "int option"

definition date_of :: "datetime \<Rightarrow> date" where
  "date_of dt = (year dt, month dt, day dt)"

definition timetuple :: "datetime \<Rightarrow> nat \<times> nat \<times> nat \<times> nat \<times> nat \<times> nat \<times> nat" where
  "timetuple dt = (year dt, month dt, day dt, hour dt, minute dt, second dt, microsecond dt)"

definition is_leap :: "nat \<Rightarrow> bool" where
  "is_leap y = (y mod 4 = 0 \<and> (y mod 100 \<noteq> 0 \<or> y mod 400 = 0))"

definition days_in_month :: "nat \<Rightarrow> nat \<Rightarrow> nat" where
  "days_in_month y m =
     (if m = 2 then (if is_leap y then 29 else 28)
      else if m = 4 \<or> m = 6 \<or> m = 9 \<or> m = 11 then 30 else 31)"

text \<open>
  \<open>dt.toordinal()\<close>, the number of the day counted from 1 January of year 1, and the
  instant of an aware value in microseconds of UTC: the fields, less the offset.
\<close>

definition toordinal :: "datetime \<Rightarrow> int" where
  "toordinal dt =
     (let y1 = int (year dt) - 1
      in y1 * 365 + y1 div 4 - y1 div 100 + y1 div 400
         + int (sum_list (map (days_in_month (year dt)) [1..<month dt]))
         + int (day dt))"

definition utc_microseconds :: "datetime \<Rightarrow> int \<Rightarrow> int" where
  "utc_microseconds dt offset =
     ((toordinal dt * 86400
        + int (hour dt) * 3600 + int (minute dt) * 60 + int (second dt)) - offset) * 1000000
     + int (microsecond dt)"

text \<open>
  \<open>a >= b\<close> on two datetimes: two naive values are ordered by their fields, two aware
  values by their instants, and a naive value against an aware one raises \<open>TypeError\<close>.
\<close>

definition datetime_ge :: "datetime \<Rightarrow> datetime \<Rightarrow> py_exception + bool" where
  "datetime_ge a b =
     (case (tzinfo a, tzinfo b) of
        (None, None) \<Rightarrow> Inr (timetuple b \<le> timetuple a)
      | (Some oa, Some ob) \<Rightarrow> Inr (utc_microseconds b ob \<le> utc_microseconds a oa)
      | _ \<Rightarrow> Inl TypeError)"

text \<open>
  The value \<open>datetime(y, m, d)\<close>: midnight, no time zone. It is what
  \<open>datetime.strptime(s, '%Y-%m-%d')\<close> builds, since the format has date directives only.
\<close>

definition datetime_of_date :: "date \<Rightarrow> datetime" where
  "datetime_of_date ymd = (case ymd of (y, m, d) \<Rightarrow>
     \<lparr>year = y, month = m, day = d, hour = 0, minute = 0, second = 0, microsecond = 0,
      tzinfo = None\<rparr>)"

text \<open>\<open>dt.replace(tzinfo=None)\<close>: the offset is dropped, the fields are kept as they are.\<close>

definition replace_tzinfo_None :: "datetime \<Rightarrow> datetime" where
  "replace_tzinfo_None dt = dt\<lparr>tzinfo := None\<rparr>"

text \<open>\<open>s.replace(old, new)\<close> for a pattern \<open>old\<close> of one character.\<close>

definition replace_char :: "char \<Rightarrow> string \<Rightarrow> string \<Rightarrow> string" where
  "replace_char old new s = concat (map (\<lambda>c. if c = old then new else [c]) s)"

section \<open>The environment of the pipeline\<close>

text \<open>
  What the repository imports and does not define, and what reads the outside world, is a
  parameter of the model:
  \<^item> \<open>strptime_ymd s\<close> is \<open>datetime.strptime(s, '%Y-%m-%d')\<close>, giving the date parsed
    (the datetime is that date at midnight) or \<open>None\<close> where Python raises \<open>ValueError\<close>;
  \<^item> \<open>fromisoformat s\<close> is \<open>datetime.fromisoformat(s)\<close>, \<open>None\<close> for \<open>ValueError\<close>;
  \<^item> \<open>get_date_n_days_ago n\<close> is the string \<open>utils.get_date_n_days_ago\<close> returns, which
    depends on the clock;
  \<^item> \<open>split_documents size overlap docs\<close> is
    \<open>RecursiveCharacterTextSplitter(chunk_size=size, chunk_overlap=overlap,
    length_function=len).split_documents(docs)\<close>;
  \<^item> \<open>add_documents vs chunks\<close> is \<open>vector_store.add_documents(chunks)\<close>: the index
    afterwards, and the exception raised, if any;
  \<^item> \<open>invoke vs query k\<close> is \<open>vector_store.as_retriever(search_kwargs={"k": k}).invoke(query)\<close>.
\<close>

record 'vs env =
  strptime_ymd :: "string \<Rightarrow> date option"
  fromisoformat :: "string \<Rightarrow> datetime option"
  get_date_n_days_ago :: "int \<Rightarrow> string"
  split_documents :: "nat \<Rightarrow> nat \<Rightarrow> document list \<Rightarrow> document list"
  add_documents :: "'vs \<Rightarrow> document list \<Rightarrow> 'vs \<times> py_exception option"
  invoke :: "'vs \<Rightarrow> string \<Rightarrow> nat \<Rightarrow> py_exception + document list"

section \<open>retriever.py: the temporal filter\<close>

text \<open>
  The body of the \<open>try\<close> block of \<open>filter_documents_by_date\<close> up to the comparison: a
  string with a \<open>T\<close> goes to \<open>fromisoformat\<close> after every \<open>Z\<close> is replaced by
  \<open>+00:00\<close>, and loses its zone; any other string goes to \<open>strptime\<close>. \<open>None\<close> is the
  \<open>ValueError\<close> the \<open>except\<close> clause catches.
\<close>

definition parse_publish_date :: "'vs env \<Rightarrow> string \<Rightarrow> datetime option" where
  "parse_publish_date e publish_date_str =
     (if CHR ''T'' \<in> set publish_date_str
      then map_option replace_tzinfo_None
             (fromisoformat e (replace_char (CHR ''Z'') ''+00:00'' publish_date_str))
      else map_option datetime_of_date (strptime_ymd e publish_date_str))"

text \<open>
  The \<open>for\<close> loop of \<open>filter_documents_by_date\<close>, with \<open>filtered_docs\<close> as the
  accumulator. An empty \<open>publish_date\<close> is falsy in Python and takes the branch of the
  missing key. The comparison stands inside the \<open>try\<close> block, whose only clause is
  \<open>except ValueError\<close>: a \<open>TypeError\<close> of the comparison ends the loop and leaves the
  function. The log calls and the two counters, which feed the log only, are left out.
\<close>

fun filter_loop ::
  "'vs env \<Rightarrow> datetime \<Rightarrow> document list \<Rightarrow> document list \<Rightarrow> py_exception + document list"
where
  "filter_loop e start_date [] filtered_docs = Inr filtered_docs"
| "filter_loop e start_date (doc # docs) filtered_docs =
     (if metadata doc ''source'' = Some ''newsapi'' then
        (case metadata doc ''publish_date'' of
           None \<Rightarrow> filter_loop e start_date docs filtered_docs
         | Some publish_date_str \<Rightarrow>
             if publish_date_str = [] then filter_loop e start_date docs filtered_docs
             else (case parse_publish_date e publish_date_str of
                     None \<Rightarrow> filter_loop e start_date docs filtered_docs
                   | Some publish_date \<Rightarrow>
                       (case datetime_ge publish_date start_date of
                          Inl ex \<Rightarrow> Inl ex
                        | Inr ge \<Rightarrow>
                            if ge then filter_loop e start_date docs (filtered_docs @ [doc])
                            else filter_loop e start_date docs filtered_docs)))
      else filter_loop e start_date docs (filtered_docs @ [doc]))"

text \<open>
  \<open>filter_documents_by_date\<close>: the empty list returns before the cutoff is parsed; a
  cutoff that \<open>strptime\<close> rejects raises \<open>ValueError\<close> out of the function.
\<close>

definition filter_documents_by_date ::
  "'vs env \<Rightarrow> document list \<Rightarrow> string \<Rightarrow> py_exception + document list" where
  "filter_documents_by_date e docs start_date_str =
     (if docs = [] then Inr []
      else (case strptime_ymd e start_date_str of
              None \<Rightarrow> Inl ValueError
            | Some ymd \<Rightarrow> filter_loop e (datetime_of_date ymd) docs []))"

text \<open>Whether the loop appends a document, given the parsed cutoff, when no comparison
  raises.\<close>

definition keeps :: "'vs env \<Rightarrow> datetime \<Rightarrow> document \<Rightarrow> bool" where
  "keeps e start_date doc =
     (if metadata doc ''source'' = Some ''newsapi''
      then (case metadata doc ''publish_date'' of
              None \<Rightarrow> False
            | Some s \<Rightarrow> s \<noteq> [] \<and>
                (case parse_publish_date e s of
                   None \<Rightarrow> False
                 | Some dt \<Rightarrow> datetime_ge dt start_date = Inr True))
      else True)"

section \<open>retriever.py: chunking and storing\<close>

text \<open>
  What \<open>process_and_store_documents\<close> acts on: the index behind \<open>vector_store\<close>, the
  list of the chunk lists handed to \<open>add_documents\<close> so far (one entry for each call),
  and the records written through \<open>logging\<close>.
\<close>

datatype log_event =
    Warning_no_documents
  | Warning_zero_chunks nat
  | Info_adding_chunks nat
  | Info_added
  | Error_adding py_exception

record 'vs pipeline_state =
  vector_store :: 'vs
  upsert_calls :: "document list list"
  app_log :: "log_event list"

text \<open>
  \<open>process_and_store_documents\<close>: two early returns, then the call of
  \<open>add_documents\<close> inside \<open>try\<close>; the \<open>except Exception\<close> clause logs the exception
  and the function returns \<open>None\<close> on every path, so the result is the state alone.
\<close>

definition process_and_store_documents ::
  "'vs env \<Rightarrow> document list \<Rightarrow> 'vs pipeline_state \<Rightarrow> 'vs pipeline_state" where
  "process_and_store_documents e docs st =
     (if docs = [] then st\<lparr>app_log := app_log st @ [Warning_no_documents]\<rparr>
      else
        let split_docs = split_documents e 1000 200 docs in
        if split_docs = []
        then st\<lparr>app_log := app_log st @ [Warning_zero_chunks (length docs)]\<rparr>
        else
          (case add_documents e (vector_store st) split_docs of
             (vs', raised) \<Rightarrow>
               \<lparr>vector_store = vs',
                upsert_calls = upsert_calls st @ [split_docs],
                app_log = app_log st @ [Info_adding_chunks (length split_docs),
                   (case raised of None \<Rightarrow> Info_added | Some ex \<Rightarrow> Error_adding ex)]\<rparr>))"

section \<open>agent.py: the orchestrator\<close>

text \<open>
  Lines 132 to 138 of \<open>retrieve_and_filter_context\<close>: the news documents among the
  retrieved ones go through the filter, the website documents are appended to its result.
\<close>

definition filter_and_combine ::
  "'vs env \<Rightarrow> document list \<Rightarrow> string \<Rightarrow> py_exception + document list" where
  "filter_and_combine e retrieved_docs start_date_str =
     (case filter_documents_by_date e
             (filter (\<lambda>doc. metadata doc ''source'' = Some ''newsapi'') retrieved_docs)
             start_date_str of
        Inl ex \<Rightarrow> Inl ex
      | Inr filtered_docs \<Rightarrow>
          Inr (filtered_docs @
               filter (\<lambda>doc. metadata doc ''source'' = Some ''website'') retrieved_docs))"

text \<open>
  \<open>retrieve_and_filter_context\<close>: the cutoff string, the retrieval with \<open>k = 15\<close>, the
  filter and the slice \<open>[:7]\<close>. No exception is caught here.
\<close>

definition retrieve_and_filter_context ::
  "'vs env \<Rightarrow> 'vs \<Rightarrow> string \<Rightarrow> int \<Rightarrow> py_exception + document list" where
  "retrieve_and_filter_context e vs competitor_name days_back =
     (let start_date_str = get_date_n_days_ago e days_back;
          query = ''Recent news and website information about '' @ competitor_name
      in case invoke e vs query 15 of
           Inl ex \<Rightarrow> Inl ex
         | Inr retrieved_docs \<Rightarrow>
             (case filter_and_combine e retrieved_docs start_date_str of
                Inl ex \<Rightarrow> Inl ex
              | Inr filtered_docs \<Rightarrow> Inr (take 7 filtered_docs)))"

section \<open>app.py: storing, then retrieving\<close>

text \<open>
  Steps 2 and 3 of the report generation in \<open>app.py\<close> (lines 79 and 85): the documents
  are stored, then the context is retrieved from the same store. \<open>Inl\<close> is an exception
  that reaches the \<open>except\<close> clause of \<open>app.py\<close> and is shown as an error; \<open>Inr\<close> is
  the context handed to the summarizer.
\<close>

definition app_store_and_retrieve ::
  "'vs env \<Rightarrow> document list \<Rightarrow> 'vs pipeline_state \<Rightarrow> string \<Rightarrow> int \<Rightarrow>
     (py_exception + document list) \<times> 'vs pipeline_state" where
  "app_store_and_retrieve e all_docs st competitor_name days_back =
     (let st' = process_and_store_documents e all_docs st
      in (retrieve_and_filter_context e (vector_store st') competitor_name days_back, st'))"

section \<open>The chunker\<close>

text \<open>
  Modelled from the spec: the Chunker of section 4.1 is the text splitter that
  \<open>retriever.py\<close> imports (\<open>RecursiveCharacterTextSplitter\<close> of LangChain, with
  \<open>chunk_size = 1000\<close>, \<open>chunk_overlap = 200\<close> and \<open>length_function = len\<close>); its
  code is not part of the sources. The specification gives its contract: chunks are
  pieces of the document of at most \<open>chunk_size\<close> characters, natural boundaries
  (paragraph, then line, then word, then character) are preferred to a hard cut, an
  empty or all-whitespace document yields zero chunks, and every chunk inherits the
  metadata of its parent unmodified. Where the specification is silent the definitions
  follow \<open>split_text\<close> of the library for this configuration: the separators are tried
  in the order blank line, newline, blank, empty string; the text is cut at every
  occurrence of the first separator that occurs in it, each separator staying at the head
  of the piece that follows it; pieces shorter than \<open>chunk_size\<close> are merged while
  they fit, a piece that is not shorter is cut again with the separators that remain;
  every merged chunk is stripped of the whitespace at its two ends and dropped when
  nothing is left, which is what gives no chunk for an all-whitespace document; and the
  last pieces of a chunk, as long as their lengths sum to at most \<open>chunk_overlap\<close>,
  start the next chunk.
\<close>

text \<open>
  Modelled from the spec: the characters that make a document "all-whitespace" and that
  \<open>str.strip()\<close> removes, for the characters below 256: those for which
  \<open>str.isspace\<close> holds.
\<close>

definition is_whitespace :: "char \<Rightarrow> bool" where
  "is_whitespace c =
     (c \<in> set [CHR 0x09, CHR 0x0A, CHR 0x0B, CHR 0x0C, CHR 0x0D,
                 CHR 0x1C, CHR 0x1D, CHR 0x1E, CHR 0x1F, CHR '' '', CHR 0x85, CHR 0xA0])"

text \<open>Modelled from the spec: \<open>text.strip()\<close>, missing with the splitter.\<close>

definition py_strip :: "string \<Rightarrow> string" where
  "py_strip s = rev (dropWhile is_whitespace (rev (dropWhile is_whitespace s)))"

text \<open>Modelled from the spec: \<open>re.search(re.escape(sep), text)\<close> finds a match.\<close>

definition occurs :: "string \<Rightarrow> string \<Rightarrow> bool" where
  "occurs sep text = list_ex (prefix sep) (suffixes text)"

text \<open>
  Modelled from the spec: the pieces of \<open>re.split\<close> on a separator that is not empty,
  with \<open>keep_separator\<close>: the text is read from the left, \<open>piece\<close> is the piece being
  read, and a separator found closes it and opens the next piece.
\<close>

function split_keep :: "string \<Rightarrow> string \<Rightarrow> string \<Rightarrow> string list" where
  "split_keep sep piece text =
     (if text = [] then [piece]
      else if sep \<noteq> [] \<and> prefix sep text
      then piece # split_keep sep sep (drop (length sep) text)
      else split_keep sep (piece @ [hd text]) (tl text))"
  by pat_completeness auto
termination
  by (relation "measure (\<lambda>(sep, piece, text). length text)") auto

text \<open>
  Modelled from the spec: \<open>_split_text_with_regex(text, separator, keep_separator=True)\<close>
  of the missing splitter; the empty separator gives the characters, and empty pieces
  are removed.
\<close>

definition split_text_with_regex :: "string \<Rightarrow> string \<Rightarrow> string list" where
  "split_text_with_regex text separator =
     filter (\<lambda>s. s \<noteq> [])
       (if separator = [] then map (\<lambda>c. [c]) text else split_keep separator [] text)"

text \<open>
  Modelled from the spec: \<open>_join_docs\<close> of the missing splitter, with the empty string
  between the pieces; the list is empty where the library returns \<open>None\<close>.
\<close>

definition join_docs :: "string list \<Rightarrow> string list" where
  "join_docs docs = (let text = py_strip (concat docs) in if text = [] then [] else [text])"

text \<open>Modelled from the spec: the running total of \<open>_merge_splits\<close>, the sum of the
  lengths of the pieces of the chunk being filled.\<close>

definition total_length :: "string list \<Rightarrow> nat" where
  "total_length docs = sum_list (map length docs)"

text \<open>
  Modelled from the spec: the \<open>while\<close> loop of \<open>_merge_splits\<close>, which removes pieces
  from the head of the chunk just closed until what is left is no longer than the overlap
  and leaves room for the piece of length \<open>len\<close>.
\<close>

fun pop_overlap :: "nat \<Rightarrow> nat \<Rightarrow> nat \<Rightarrow> string list \<Rightarrow> string list" where
  "pop_overlap chunk_size chunk_overlap len [] = []"
| "pop_overlap chunk_size chunk_overlap len (x # current_doc) =
     (if total_length (x # current_doc) > chunk_overlap \<or>
         (total_length (x # current_doc) + len > chunk_size \<and> total_length (x # current_doc) > 0)
      then pop_overlap chunk_size chunk_overlap len current_doc
      else x # current_doc)"

text \<open>
  Modelled from the spec: the \<open>for\<close> loop of \<open>_merge_splits\<close>, with \<open>current_doc\<close>
  as the chunk being filled.
\<close>

fun merge_loop :: "nat \<Rightarrow> nat \<Rightarrow> string list \<Rightarrow> string list \<Rightarrow> string list" where
  "merge_loop chunk_size chunk_overlap current_doc [] = join_docs current_doc"
| "merge_loop chunk_size chunk_overlap current_doc (d # splits) =
     (if total_length current_doc + length d > chunk_size \<and> current_doc \<noteq> []
      then join_docs current_doc @
           merge_loop chunk_size chunk_overlap
             (pop_overlap chunk_size chunk_overlap (length d) current_doc @ [d]) splits
      else merge_loop chunk_size chunk_overlap (current_doc @ [d]) splits)"

text \<open>Modelled from the spec: \<open>_merge_splits(splits, "")\<close> of the missing splitter.\<close>

definition merge_splits :: "nat \<Rightarrow> nat \<Rightarrow> string list \<Rightarrow> string list" where
  "merge_splits chunk_size chunk_overlap splits = merge_loop chunk_size chunk_overlap [] splits"

text \<open>
  Modelled from the spec: the loop of \<open>_split_text\<close> over the pieces. \<open>deeper\<close> is the
  splitting with the separators that remain, \<open>None\<close> when none remains: a piece that is
  not shorter than \<open>chunk_size\<close> is then a chunk as it is.
\<close>

fun process_splits ::
  "nat \<Rightarrow> nat \<Rightarrow> (string \<Rightarrow> string list) option \<Rightarrow> string list \<Rightarrow> string list \<Rightarrow> string list"
where
  "process_splits chunk_size chunk_overlap deeper good_splits [] =
     (if good_splits = [] then [] else merge_splits chunk_size chunk_overlap good_splits)"
| "process_splits chunk_size chunk_overlap deeper good_splits (s # splits) =
     (if length s < chunk_size
      then process_splits chunk_size chunk_overlap deeper (good_splits @ [s]) splits
      else (if good_splits = [] then [] else merge_splits chunk_size chunk_overlap good_splits) @
           (case deeper of None \<Rightarrow> [s] | Some split_deeper \<Rightarrow> split_deeper s) @
           process_splits chunk_size chunk_overlap deeper [] splits)"

text \<open>
  Modelled from the spec: \<open>_split_text(text, separators)\<close> of the missing splitter, the
  list of separators given as its head and its tail. The first separator that is empty
  or occurs in the text is the one used; when none does, the last one is.
\<close>

fun split_text :: "nat \<Rightarrow> nat \<Rightarrow> string \<Rightarrow> string list \<Rightarrow> string \<Rightarrow> string list" where
  "split_text chunk_size chunk_overlap separator [] text =
     process_splits chunk_size chunk_overlap None [] (split_text_with_regex text separator)"
| "split_text chunk_size chunk_overlap separator (s # new_separators) text =
     (if separator = [] then
        process_splits chunk_size chunk_overlap None [] (split_text_with_regex text separator)
      else if occurs separator text then
        process_splits chunk_size chunk_overlap
          (Some (split_text chunk_size chunk_overlap s new_separators)) []
          (split_text_with_regex text separator)
      else split_text chunk_size chunk_overlap s new_separators text)"

text \<open>
  Modelled from the spec: the texts of the chunks of one document, in the place of the
  missing \<open>split_text\<close> with the separators of the library.
\<close>

definition chunk_text :: "nat \<Rightarrow> nat \<Rightarrow> string \<Rightarrow> string list" where
  "chunk_text chunk_size chunk_overlap text =
     split_text chunk_size chunk_overlap [CHR 0x0A, CHR 0x0A] [[CHR 0x0A], '' '', ''''] text"

text \<open>
  Modelled from the spec: the chunks derived from one document, each with the metadata
  of the document, unmodified.
\<close>

definition chunks_of :: "nat \<Rightarrow> nat \<Rightarrow> document \<Rightarrow> document list" where
  "chunks_of chunk_size chunk_overlap doc =
     map (\<lambda>t. \<lparr>page_content = t, metadata = metadata doc\<rparr>)
       (chunk_text chunk_size chunk_overlap (page_content doc))"

text \<open>
  Modelled from the spec: the Chunker, in the place of the missing \<open>split_documents\<close>;
  the chunks of the documents, document after document.
\<close>

definition chunker :: "nat \<Rightarrow> nat \<Rightarrow> document list \<Rightarrow> document list" where
  "chunker chunk_size chunk_overlap docs = concat (map (chunks_of chunk_size chunk_overlap) docs)"

text \<open>
  The hard character cut: windows of \<open>chunk_size\<close> characters, each starting
  \<open>chunk_overlap\<close> characters before the end of the one before it. It is what the
  chunker produces on a text without whitespace, where no natural boundary exists.
\<close>

function hard_cut_windows :: "nat \<Rightarrow> nat \<Rightarrow> string \<Rightarrow> string list" where
  "hard_cut_windows chunk_size chunk_overlap s =
     (if chunk_overlap < chunk_size \<and> chunk_size < length s
      then take chunk_size s #
           hard_cut_windows chunk_size chunk_overlap (drop (chunk_size - chunk_overlap) s)
      else [s])"
  by pat_completeness auto
termination
  by (relation "measure (\<lambda>(n, k, s). length s)") auto


declare hard_cut_windows.simps [simp del]

declare split_keep.simps [simp del]

section \<open>A reference environment\<close>

text \<open>
  One concrete environment, on which the definitions above can be evaluated. Its date
  parsers follow the documentation of CPython 3.7 to 3.10 (later versions of
  \<open>fromisoformat\<close> accept more strings): \<open>strptime\<close> with \<open>%Y-%m-%d\<close> takes
  four digits, a month of one or two digits and a day of one or two digits (or a blank
  and a digit), and checks the date against the calendar; \<open>fromisoformat\<close> takes
  \<open>YYYY-MM-DD\<close>, then optionally one separator character, \<open>HH[:MM[:SS[.fff[fff]]]]\<close>
  and an offset \<open>+HH:MM\<close> or \<open>-HH:MM\<close>. The index is the list of the chunks stored,
  retrieval returns its first \<open>k\<close> entries, the clock is fixed, and the splitter is the
  chunker defined above. The theorems below hold for every environment; this one
  instantiates them.
\<close>

definition digit_val :: "char \<Rightarrow> nat option" where
  "digit_val = map_of (zip ''0123456789'' [0, 1, 2, 3, 4, 5, 6, 7, 8, 9])"

fun digits_acc :: "nat \<Rightarrow> string \<Rightarrow> nat option" where
  "digits_acc n [] = Some n"
| "digits_acc n (c # cs) =
     (case digit_val c of None \<Rightarrow> None | Some v \<Rightarrow> digits_acc (10 * n + v) cs)"

text \<open>The number written by a non-empty string of decimal digits.\<close>

definition parse_digits :: "string \<Rightarrow> nat option" where
  "parse_digits s = (if s = [] then None else digits_acc 0 s)"

text \<open>The check of the constructor \<open>datetime(y, m, d)\<close>, which raises \<open>ValueError\<close>.\<close>

definition valid_date :: "nat \<Rightarrow> nat \<Rightarrow> nat \<Rightarrow> bool" where
  "valid_date y m d =
     (1 \<le> y \<and> y \<le> 9999 \<and> 1 \<le> m \<and> m \<le> 12 \<and> 1 \<le> d \<and> d \<le> days_in_month y m)"

definition ref_strptime_ymd :: "string \<Rightarrow> date option" where
  "ref_strptime_ymd s =
     (let ys = take 4 s;
          r = drop 5 s;
          ms = takeWhile (\<lambda>c. c \<noteq> CHR ''-'') r;
          ds = drop (Suc (length ms)) r;
          dd = (if take 1 ds = '' '' \<and> length ds = 2 then drop 1 ds else ds)
      in if length ys = 4 \<and> take 1 (drop 4 s) = ''-''
            \<and> take 1 (drop (length ms) r) = ''-''
            \<and> length ms \<le> 2 \<and> length ds \<le> 2
         then (case (parse_digits ys, parse_digits ms, parse_digits dd) of
                 (Some y, Some m, Some d) \<Rightarrow>
                   if valid_date y m d then Some (y, m, d) else None
               | _ \<Rightarrow> None)
         else None)"

text \<open>\<open>HH[:MM[:SS[.fff[fff]]]]\<close>, by the length of the string.\<close>

definition ref_parse_hh_mm_ss_ff :: "string \<Rightarrow> (nat \<times> nat \<times> nat \<times> nat) option" where
  "ref_parse_hh_mm_ss_ff t =
     (let n = length t;
          hh = parse_digits (take 2 t);
          mm = (if n \<ge> 5 then parse_digits (take 2 (drop 3 t)) else Some 0);
          ss = (if n \<ge> 8 then parse_digits (take 2 (drop 6 t)) else Some 0);
          ff = (if n = 12 then map_option (\<lambda>f. f * 1000) (parse_digits (drop 9 t))
                else if n = 15 then parse_digits (drop 9 t) else Some 0)
      in if n \<in> set [2, 5, 8, 12, 15]
            \<and> (n \<ge> 5 \<longrightarrow> take 1 (drop 2 t) = '':'')
            \<and> (n \<ge> 8 \<longrightarrow> take 1 (drop 5 t) = '':'')
            \<and> (n \<ge> 12 \<longrightarrow> take 1 (drop 8 t) = ''.'')
         then (case (hh, mm, ss, ff) of
                 (Some h, Some m, Some s, Some f) \<Rightarrow>
                   if h < 24 \<and> m < 60 \<and> s < 60 then Some (h, m, s, f) else None
               | _ \<Rightarrow> None)
         else None)"

definition ref_fromisoformat :: "string \<Rightarrow> datetime option" where
  "ref_fromisoformat s =
     (let tstr = drop 11 s;
          timestr = takeWhile (\<lambda>c. c \<noteq> CHR ''+'' \<and> c \<noteq> CHR ''-'') tstr;
          sign = take 1 (drop (length timestr) tstr);
          tzstr = drop (Suc (length timestr)) tstr
      in if length s < 10 \<or> length s = 11 \<or> take 1 (drop 4 s) \<noteq> ''-''
            \<or> take 1 (drop 7 s) \<noteq> ''-''
         then None
         else
           (case (parse_digits (take 4 s), parse_digits (take 2 (drop 5 s)),
                  parse_digits (take 2 (drop 8 s)),
                  (if length s = 10 then Some (0, 0, 0, 0) else ref_parse_hh_mm_ss_ff timestr),
                  (if sign = [] then Some None
                   else if length tzstr = 5
                   then map_option
                          (\<lambda>(h, m, s', f).
                              Some ((if sign = ''-'' then - 1 else 1) * int (h * 3600 + m * 60)))
                          (ref_parse_hh_mm_ss_ff tzstr)
                   else None)) of
              (Some y, Some m, Some d, Some (hh, mi, ss, ff), Some tz) \<Rightarrow>
                if valid_date y m d
                then Some \<lparr>year = y, month = m, day = d, hour = hh, minute = mi, second = ss,
                           microsecond = ff, tzinfo = tz\<rparr>
                else None
            | _ \<Rightarrow> None))"

definition ref_env :: "document list env" where
  "ref_env =
     \<lparr>strptime_ymd = ref_strptime_ymd,
      fromisoformat = ref_fromisoformat,
      get_date_n_days_ago = (\<lambda>days. ''2024-05-25''),
      split_documents = chunker,
      add_documents = (\<lambda>vs chunks. (vs @ chunks, None)),
      invoke = (\<lambda>vs query k. Inr (take k vs))\<rparr>"

text \<open>The same environment with an index whose every write fails.\<close>

definition failing_env :: "document list env" where
  "failing_env = ref_env\<lparr>add_documents := (\<lambda>vs chunks. (vs, Some (BackendError ''disk full'')))\<rparr>"

text \<open>
  Documents to evaluate on: four news articles (two recent, one old, one with a date
  that does not parse), a website page, a page of another source and a page of one blank.
\<close>

definition news_recent :: document where
  "news_recent = \<lparr>page_content = ''Acme launches a new product.'',
     metadata = [''source'' \<mapsto> ''newsapi'', ''publish_date'' \<mapsto> ''2024-06-01T10:00:00Z'']\<rparr>"

text \<open>An article dated one hour after the midnight of 25 May 2024 in a zone five hours
  ahead of UTC: 24 May in UTC.\<close>

definition news_zoned :: document where
  "news_zoned = \<lparr>page_content = ''Acme signs a partnership.'',
     metadata = [''source'' \<mapsto> ''newsapi'', ''publish_date'' \<mapsto> ''2024-05-25T01:00:00+05:00'']\<rparr>"

definition news_plain :: document where
  "news_plain = \<lparr>page_content = ''Acme opens an office.'',
     metadata = [''source'' \<mapsto> ''newsapi'', ''publish_date'' \<mapsto> ''2024-06-01'']\<rparr>"

definition news_old :: document where
  "news_old = \<lparr>page_content = ''Acme reports its results.'',
     metadata = [''source'' \<mapsto> ''newsapi'', ''publish_date'' \<mapsto> ''2024-05-01'']\<rparr>"

definition news_undated :: document where
  "news_undated = \<lparr>page_content = ''Acme is in the news.'',
     metadata = [''source'' \<mapsto> ''newsapi'', ''publish_date'' \<mapsto> ''not-a-date'']\<rparr>"

definition web_page :: document where
  "web_page = \<lparr>page_content = ''Welcome to Acme.'',
     metadata = [''source'' \<mapsto> ''website'', ''url'' \<mapsto> ''https://acme.example'']\<rparr>"

definition other_page :: document where
  "other_page = \<lparr>page_content = ''A note about Acme.'',
     metadata = [''source'' \<mapsto> ''blog'']\<rparr>"

definition blank_page :: document where
  "blank_page = \<lparr>page_content = '' '', metadata = [''source'' \<mapsto> ''website'']\<rparr>"



definition empty_state :: "document list pipeline_state" where
  "empty_state = \<lparr>vector_store = [], upsert_calls = [], app_log = []\<rparr>"

text \<open>A website page of 1500 characters, longer than one chunk.\<close>

definition long_page :: document where
  "long_page = \<lparr>page_content = replicate 1500 (CHR ''a''),
     metadata = [''source'' \<mapsto> ''website'']\<rparr>"

text \<open>An index of twelve chunks, in the order in which retrieval returns them.\<close>

definition sample_index :: "document list" where
  "sample_index =
     [news_recent, web_page, news_old, web_page, other_page, news_plain,
      web_page, news_undated, web_page, web_page, web_page, web_page]"

section \<open>Properties of the temporal filter\<close>

text \<open>
  The value the \<open>try\<close> block compares is naive on both of its paths: line 94 drops the
  zone of what \<open>fromisoformat\<close> returns, and \<open>strptime\<close> with \<open>%Y-%m-%d\<close> builds a
  naive value. So is the cutoff, and the comparison never raises.
\<close>

lemma parse_publish_date_naive:
  "parse_publish_date e s = Some dt \<Longrightarrow> tzinfo dt = None"
  by (cases "strptime_ymd e s")
     (auto simp: parse_publish_date_def replace_tzinfo_None_def datetime_of_date_def
           split: if_splits prod.splits)

lemma tzinfo_datetime_of_date [simp]: "tzinfo (datetime_of_date c) = None"
  by (cases c) (simp add: datetime_of_date_def)

lemma datetime_ge_naive:
  "tzinfo a = None \<Longrightarrow> tzinfo b = None \<Longrightarrow> datetime_ge a b = Inr (timetuple b \<le> timetuple a)"
  by (simp add: datetime_ge_def)

lemma datetime_ge_mixed:
  "tzinfo a = Some offset \<Longrightarrow> tzinfo b = None \<Longrightarrow> datetime_ge a b = Inl TypeError"
  by (simp add: datetime_ge_def)

lemma filter_loop_filter:
  "tzinfo sd = None \<Longrightarrow> filter_loop e sd docs acc = Inr (acc @ filter (keeps e sd) docs)"
proof (induction docs arbitrary: acc)
  case Nil
  then show ?case by simp
next
  case (Cons doc docs)
  have ge: "datetime_ge dt sd = Inr (timetuple sd \<le> timetuple dt)"
    if "parse_publish_date e s = Some dt" for s dt
    using that Cons.prems by (simp add: datetime_ge_naive parse_publish_date_naive)
  show ?case
    using Cons.IH [OF Cons.prems]
    by (auto simp: keeps_def ge split: option.splits)
qed

lemma filter_documents_by_date_parsed:
  "strptime_ymd e s = Some c \<Longrightarrow>
     filter_documents_by_date e docs s = Inr (filter (keeps e (datetime_of_date c)) docs)"
  by (simp add: filter_documents_by_date_def filter_loop_filter)

lemma filter_documents_by_date_Inr:
  "filter_documents_by_date e docs s = Inr out \<Longrightarrow> \<exists>sd. out = filter (keeps e sd) docs"
  by (auto simp: filter_documents_by_date_def filter_loop_filter
           split: if_splits option.splits)

lemma filter_documents_by_date_Inl:
  "filter_documents_by_date e docs s = Inl ex \<longleftrightarrow>
     docs \<noteq> [] \<and> strptime_ymd e s = None \<and> ex = ValueError"
  by (auto simp: filter_documents_by_date_def filter_loop_filter split: option.splits)

lemma datetime_ge_midnight:
  "tzinfo dt = None \<Longrightarrow> datetime_ge dt (datetime_of_date c) = Inr True \<longleftrightarrow> c \<le> date_of dt"
  by (cases c) (auto simp: datetime_ge_def timetuple_def datetime_of_date_def date_of_def)

lemma date_of_replace_tzinfo_None [simp]:
  "date_of (replace_tzinfo_None dt) = date_of dt"
  by (simp add: date_of_def replace_tzinfo_None_def)

lemma date_of_datetime_of_date [simp]:
  "date_of (datetime_of_date c) = c"
  by (cases c) (simp add: date_of_def datetime_of_date_def)

lemma keeps_news:
  assumes "metadata doc ''source'' = Some ''newsapi''" and "strptime_ymd e [] = None"
  shows "keeps e (datetime_of_date cutoff) doc \<longleftrightarrow>
     (\<exists>s. metadata doc ''publish_date'' = Some s \<and>
        ((CHR ''T'' \<in> set s \<and>
            (\<exists>dt. fromisoformat e (replace_char (CHR ''Z'') ''+00:00'' s) = Some dt \<and>
                  cutoff \<le> date_of dt))
         \<or> (CHR ''T'' \<notin> set s \<and> (\<exists>d. strptime_ymd e s = Some d \<and> cutoff \<le> d))))"
proof -
  have "datetime_ge dt (datetime_of_date cutoff) = Inr True \<longleftrightarrow> cutoff \<le> date_of dt"
    if "parse_publish_date e s = Some dt" for s dt
    using that by (simp add: datetime_ge_midnight parse_publish_date_naive)
  then have "keeps e (datetime_of_date cutoff) doc \<longleftrightarrow>
      (\<exists>s dt. metadata doc ''publish_date'' = Some s \<and> s \<noteq> [] \<and>
         parse_publish_date e s = Some dt \<and> cutoff \<le> date_of dt)"
    using assms(1) by (auto simp: keeps_def split: option.splits)
  also have "\<dots> \<longleftrightarrow>
     (\<exists>s. metadata doc ''publish_date'' = Some s \<and>
        ((CHR ''T'' \<in> set s \<and>
            (\<exists>dt. fromisoformat e (replace_char (CHR ''Z'') ''+00:00'' s) = Some dt \<and>
                  cutoff \<le> date_of dt))
         \<or> (CHR ''T'' \<notin> set s \<and> (\<exists>d. strptime_ymd e s = Some d \<and> cutoff \<le> d))))"
    using assms(2) by (auto simp: parse_publish_date_def)
  finally show ?thesis .
qed

lemma keeps_other: "metadata doc ''source'' \<noteq> Some ''newsapi'' \<Longrightarrow> keeps e sd doc"
  by (simp add: keeps_def)


lemmas ref_parsers =
  ref_env_def ref_strptime_ymd_def ref_fromisoformat_def ref_parse_hh_mm_ss_ff_def
  parse_digits_def digit_val_def valid_date_def days_in_month_def is_leap_def replace_char_def

lemmas sample_docs =
  news_recent_def news_plain_def news_old_def news_undated_def web_page_def other_page_def

text \<open>
  C2: with a cutoff that is a date, a document of source \<open>newsapi\<close> is in the output
  exactly when it has a \<open>publish_date\<close> that parses under one of the two formats (with a
  \<open>T\<close>: \<open>fromisoformat\<close> after \<open>Z\<close> is replaced; without: \<open>%Y-%m-%d\<close>) to a date
  on or after the cutoff date. The zone of the parsed value is discarded: what is compared
  with the cutoff is naive, whatever \<open>fromisoformat\<close> returned, so the comparison does
  not raise and is the comparison of the two dates. The function returns a list: a
  missing or unparsable \<open>publish_date\<close> drops the document and raises nothing. The
  second hypothesis is the fact of the library that the empty string is not a date.
\<close>

theorem filter_documents_by_date_news:
  assumes "strptime_ymd e start_date_str = Some cutoff"
    and "strptime_ymd e [] = None"
    and "doc \<in> set docs"
    and "metadata doc ''source'' = Some ''newsapi''"
  shows "(\<exists>out. filter_documents_by_date e docs start_date_str = Inr out \<and>
     (doc \<in> set out \<longleftrightarrow>
        (\<exists>s. metadata doc ''publish_date'' = Some s \<and>
           ((CHR ''T'' \<in> set s \<and>
               (\<exists>dt. fromisoformat e (replace_char (CHR ''Z'') ''+00:00'' s) = Some dt \<and>
                     cutoff \<le> date_of dt))
            \<or> (CHR ''T'' \<notin> set s \<and> (\<exists>d. strptime_ymd e s = Some d \<and> cutoff \<le> d)))))) \<and>
     (\<forall>s dt. parse_publish_date e s = Some dt \<longrightarrow>
        tzinfo dt = None \<and>
        datetime_ge dt (datetime_of_date cutoff) = Inr (cutoff \<le> date_of dt))"
proof -
  have out: "filter_documents_by_date e docs start_date_str =
      Inr (filter (keeps e (datetime_of_date cutoff)) docs)"
    using assms(1) by (rule filter_documents_by_date_parsed)
  have "doc \<in> set (filter (keeps e (datetime_of_date cutoff)) docs) \<longleftrightarrow>
      keeps e (datetime_of_date cutoff) doc"
    using assms(3) by simp
  with out keeps_news [OF assms(4) assms(2), of cutoff]
  have kept: "\<exists>out. filter_documents_by_date e docs start_date_str = Inr out \<and>
     (doc \<in> set out \<longleftrightarrow>
        (\<exists>s. metadata doc ''publish_date'' = Some s \<and>
           ((CHR ''T'' \<in> set s \<and>
               (\<exists>dt. fromisoformat e (replace_char (CHR ''Z'') ''+00:00'' s) = Some dt \<and>
                     cutoff \<le> date_of dt))
            \<or> (CHR ''T'' \<notin> set s \<and> (\<exists>d. strptime_ymd e s = Some d \<and> cutoff \<le> d)))))"
    by simp
  have "tzinfo dt = None \<and> datetime_ge dt (datetime_of_date cutoff) = Inr (cutoff \<le> date_of dt)"
    if p: "parse_publish_date e s = Some dt" for s dt
  proof -
    have n: "tzinfo dt = None"
      using p by (rule parse_publish_date_naive)
    obtain b where b: "datetime_ge dt (datetime_of_date cutoff) = Inr b"
      using n by (simp add: datetime_ge_naive)
    with datetime_ge_midnight [OF n, of cutoff] have "b \<longleftrightarrow> cutoff \<le> date_of dt"
      by simp
    with n b show ?thesis by simp
  qed
  with kept show ?thesis by blast
qed

theorem filter_documents_by_date_news_witness:
  "strptime_ymd ref_env ''2024-05-25'' = Some (2024, 5, 25) \<and>
   strptime_ymd ref_env [] = None \<and>
   news_zoned \<in> set [news_old, news_zoned, news_undated, news_recent] \<and>
   metadata news_zoned ''source'' = Some ''newsapi'' \<and>
   filter_documents_by_date ref_env [news_old, news_zoned, news_undated, news_recent]
     ''2024-05-25'' = Inr [news_zoned, news_recent] \<and>
   replace_char (CHR ''Z'') ''+00:00'' ''2024-06-01T10:00:00Z'' = ''2024-06-01T10:00:00+00:00'' \<and>
   metadata news_zoned ''publish_date'' = Some ''2024-05-25T01:00:00+05:00'' \<and>
   CHR ''T'' \<in> set ''2024-05-25T01:00:00+05:00'' \<and>
   fromisoformat ref_env (replace_char (CHR ''Z'') ''+00:00'' ''2024-05-25T01:00:00+05:00'')
     = Some \<lparr>year = 2024, month = 5, day = 25, hour = 1, minute = 0, second = 0,
              microsecond = 0, tzinfo = Some 18000\<rparr> \<and>
   parse_publish_date ref_env ''2024-05-25T01:00:00+05:00''
     = Some \<lparr>year = 2024, month = 5, day = 25, hour = 1, minute = 0, second = 0,
              microsecond = 0, tzinfo = None\<rparr> \<and>
   datetime_ge \<lparr>year = 2024, month = 5, day = 25, hour = 1, minute = 0, second = 0,
                microsecond = 0, tzinfo = None\<rparr> (datetime_of_date (2024, 5, 25))
     = Inr True \<and>
   datetime_ge \<lparr>year = 2024, month = 5, day = 25, hour = 1, minute = 0, second = 0,
                microsecond = 0, tzinfo = Some 18000\<rparr> (datetime_of_date (2024, 5, 25))
     = Inl TypeError"
proof -
  have h1: "strptime_ymd ref_env ''2024-05-25'' = Some (2024, 5, 25)"
    by (simp add: ref_parsers)
  have h2: "strptime_ymd ref_env [] = None"
    by (simp add: ref_parsers)
  have h3: "news_zoned \<in> set [news_old, news_zoned, news_undated, news_recent]"
    by simp
  have z: "replace_char (CHR ''Z'') ''+00:00'' ''2024-06-01T10:00:00Z''
      = ''2024-06-01T10:00:00+00:00''"
    by (simp add: replace_char_def)
  have h4: "metadata news_zoned ''source'' = Some ''newsapi''"
    by (simp add: news_zoned_def)
  have iso: "fromisoformat ref_env
      (replace_char (CHR ''Z'') ''+00:00'' ''2024-05-25T01:00:00+05:00'')
     = Some \<lparr>year = 2024, month = 5, day = 25, hour = 1, minute = 0, second = 0,
              microsecond = 0, tzinfo = Some 18000\<rparr>"
    by (simp add: ref_parsers)
  have p: "parse_publish_date ref_env ''2024-05-25T01:00:00+05:00''
     = Some \<lparr>year = 2024, month = 5, day = 25, hour = 1, minute = 0, second = 0,
              microsecond = 0, tzinfo = None\<rparr>"
    by (simp add: parse_publish_date_def iso replace_tzinfo_None_def)
  have ev: "filter_documents_by_date ref_env [news_old, news_zoned, news_undated, news_recent]
      ''2024-05-25'' = Inr [news_zoned, news_recent]"
    by (simp add: filter_documents_by_date_def parse_publish_date_def ref_parsers sample_docs
        news_zoned_def datetime_ge_def timetuple_def datetime_of_date_def
        replace_tzinfo_None_def)
  have m: "datetime_ge \<lparr>year = 2024, month = 5, day = 25, hour = 1, minute = 0, second = 0,
                microsecond = 0, tzinfo = Some 18000\<rparr> (datetime_of_date (2024, 5, 25))
     = Inl TypeError"
    by (simp add: datetime_ge_mixed)
  from filter_documents_by_date_news [OF h1 h2 h3 h4] p
  have "datetime_ge \<lparr>year = 2024, month = 5, day = 25, hour = 1, minute = 0, second = 0,
                microsecond = 0, tzinfo = None\<rparr> (datetime_of_date (2024, 5, 25))
     = Inr ((2024, 5, 25) \<le> date_of \<lparr>year = 2024, month = 5, day = 25, hour = 1,
                minute = 0, second = 0, microsecond = 0, tzinfo = None\<rparr>)"
    by blast
  then have c: "datetime_ge \<lparr>year = 2024, month = 5, day = 25, hour = 1, minute = 0,
       second = 0, microsecond = 0, tzinfo = None\<rparr> (datetime_of_date (2024, 5, 25))
     = Inr True"
    by (simp add: date_of_def)
  from h1 h2 h3 h4 ev z iso p c m show ?thesis
    by (simp add: news_zoned_def)
qed

text \<open>
  C3: with a cutoff that is a date, every document whose source is not \<open>newsapi\<close>
  (\<open>website\<close>, any other value, no \<open>source\<close> key at all) is in the output, with or
  without a \<open>publish_date\<close>; the documents of those sources leave the filter as they
  entered it.
\<close>

theorem filter_documents_by_date_passthrough:
  assumes "strptime_ymd e start_date_str = Some cutoff"
    and "doc \<in> set docs"
    and "metadata doc ''source'' \<noteq> Some ''newsapi''"
  shows "\<exists>out. filter_documents_by_date e docs start_date_str = Inr out \<and> doc \<in> set out \<and>
     filter (\<lambda>d. metadata d ''source'' \<noteq> Some ''newsapi'') out =
     filter (\<lambda>d. metadata d ''source'' \<noteq> Some ''newsapi'') docs"
proof -
  let ?k = "keeps e (datetime_of_date cutoff)"
  have out: "filter_documents_by_date e docs start_date_str = Inr (filter ?k docs)"
    using assms(1) by (rule filter_documents_by_date_parsed)
  have "doc \<in> set (filter ?k docs)"
    using assms(2,3) by (simp add: keeps_other)
  moreover have "filter (\<lambda>d. metadata d ''source'' \<noteq> Some ''newsapi'') (filter ?k docs) =
      filter (\<lambda>d. metadata d ''source'' \<noteq> Some ''newsapi'') docs"
    by (induction docs) (auto simp: keeps_other)
  ultimately show ?thesis using out by simp
qed

theorem filter_documents_by_date_passthrough_witness:
  "strptime_ymd ref_env ''2024-05-25'' = Some (2024, 5, 25) \<and>
   other_page \<in> set [news_old, web_page, other_page] \<and>
   metadata other_page ''source'' \<noteq> Some ''newsapi'' \<and>
   metadata web_page ''publish_date'' = None \<and>
   filter_documents_by_date ref_env [news_old, web_page, other_page] ''2024-05-25''
     = Inr [web_page, other_page]"
proof -
  have h1: "strptime_ymd ref_env ''2024-05-25'' = Some (2024, 5, 25)"
    by (simp add: ref_parsers)
  have h2: "other_page \<in> set [news_old, web_page, other_page]"
    by simp
  have h3: "metadata other_page ''source'' \<noteq> Some ''newsapi''"
    by (simp add: other_page_def)
  have ev: "filter_documents_by_date ref_env [news_old, web_page, other_page] ''2024-05-25''
      = Inr [web_page, other_page]"
    by (simp add: filter_documents_by_date_def parse_publish_date_def ref_parsers sample_docs
        datetime_ge_def timetuple_def datetime_of_date_def)
  from filter_documents_by_date_passthrough [OF h1 h2 h3] h1 h2 h3 ev show ?thesis
    by (simp add: web_page_def)
qed

text \<open>
  C10: the output of \<open>filter_documents_by_date\<close> is a subsequence of its input, in the
  order of the input: nothing is added, nothing is duplicated, nothing is moved, whatever
  the sources of the documents are.
\<close>

theorem filter_documents_by_date_subseq:
  assumes "filter_documents_by_date e docs start_date_str = Inr out"
  shows "subseq out docs \<and> set out \<subseteq> set docs \<and>
     (\<forall>d. count_list out d \<le> count_list docs d) \<and>
     (\<exists>kept. out = filter kept docs)"
proof -
  from assms obtain sd where out: "out = filter (keeps e sd) docs"
    using filter_documents_by_date_Inr by blast
  have "count_list (filter P xs) d \<le> count_list xs d" for P and xs :: "document list" and d
    by (induction xs) auto
  then have "\<forall>d. count_list out d \<le> count_list docs d"
    by (simp add: out)
  moreover have "subseq out docs" "set out \<subseteq> set docs"
    by (auto simp: out)
  ultimately show ?thesis using out by blast
qed

theorem filter_documents_by_date_subseq_witness:
  "filter_documents_by_date ref_env [web_page, news_old, news_plain, other_page, news_recent]
     ''2024-05-25'' = Inr [web_page, news_plain, other_page, news_recent] \<and>
   subseq [web_page, news_plain, other_page, news_recent]
     [web_page, news_old, news_plain, other_page, news_recent]"
proof -
  have ev: "filter_documents_by_date ref_env
      [web_page, news_old, news_plain, other_page, news_recent] ''2024-05-25''
      = Inr [web_page, news_plain, other_page, news_recent]"
    by (simp add: filter_documents_by_date_def parse_publish_date_def ref_parsers sample_docs
        datetime_ge_def timetuple_def datetime_of_date_def replace_tzinfo_None_def)
  from filter_documents_by_date_subseq [OF ev] ev show ?thesis
    by simp
qed

text \<open>The examples of the specification: a cutoff of 2024-05-25 keeps the article of
  2024-06-01, drops the article of 2024-05-01 and the article whose date is not a date,
  and keeps the website page.\<close>

lemma filter_documents_by_date_examples:
  "filter_documents_by_date ref_env [news_plain] ''2024-05-25'' = Inr [news_plain]"
  "filter_documents_by_date ref_env [news_old] ''2024-05-25'' = Inr []"
  "filter_documents_by_date ref_env [news_undated] ''2024-05-25'' = Inr []"
  "filter_documents_by_date ref_env [web_page] ''2024-05-25'' = Inr [web_page]"
  "filter_documents_by_date ref_env [web_page] ''yesterday'' = Inl ValueError"
  "filter_documents_by_date ref_env [] ''yesterday'' = Inr []"
  by (simp_all add: filter_documents_by_date_def parse_publish_date_def ref_parsers sample_docs
      datetime_ge_def timetuple_def datetime_of_date_def)

section \<open>Properties of the orchestrator\<close>

lemma retrieve_and_filter_context_Inr:
  assumes "retrieve_and_filter_context e vs competitor_name days_back = Inr out"
  shows "\<exists>retrieved combined.
     invoke e vs (''Recent news and website information about '' @ competitor_name) 15
       = Inr retrieved \<and>
     filter_and_combine e retrieved (get_date_n_days_ago e days_back) = Inr combined \<and>
     out = take 7 combined"
  using assms
  by (auto simp: retrieve_and_filter_context_def Let_def split: sum.splits)

lemma filter_and_combine_Inr:
  assumes "filter_and_combine e retrieved s = Inr combined"
  shows "\<exists>news_kept.
     filter_documents_by_date e
       (filter (\<lambda>d. metadata d ''source'' = Some ''newsapi'') retrieved) s = Inr news_kept \<and>
     combined = news_kept @ filter (\<lambda>d. metadata d ''source'' = Some ''website'') retrieved"
  using assms
  by (auto simp: filter_and_combine_def split: sum.splits)

text \<open>When the orchestrator returns a context: retrieval succeeded, and the cutoff is a
  date or no news document was retrieved.\<close>

lemma retrieve_and_filter_context_returns:
  "(\<exists>out. retrieve_and_filter_context e vs competitor_name days_back = Inr out) \<longleftrightarrow>
   (\<exists>retrieved.
      invoke e vs (''Recent news and website information about '' @ competitor_name) 15
        = Inr retrieved \<and>
      (filter (\<lambda>d. metadata d ''source'' = Some ''newsapi'') retrieved = [] \<or>
       strptime_ymd e (get_date_n_days_ago e days_back) \<noteq> None))"
  by (auto simp: retrieve_and_filter_context_def filter_and_combine_def
        filter_documents_by_date_def filter_loop_filter Let_def
      split: sum.splits option.splits if_splits)

lemma sample_retrieval:
  "retrieve_and_filter_context ref_env sample_index ''Acme'' 7 =
     Inr [news_recent, news_plain, web_page, web_page, web_page, web_page, web_page]"
  by (simp add: retrieve_and_filter_context_def filter_and_combine_def sample_index_def
      filter_documents_by_date_def parse_publish_date_def ref_parsers sample_docs
      datetime_ge_def timetuple_def datetime_of_date_def replace_tzinfo_None_def)

text \<open>
  C4: the context the orchestrator returns is the first \<open>min 7 n\<close> entries of the
  filtered and combined list of length \<open>n\<close>, in the order of that list; fifteen
  entries give exactly its first seven.
\<close>

theorem retrieve_and_filter_context_prefix:
  assumes "retrieve_and_filter_context e vs competitor_name days_back = Inr out"
  shows "\<exists>retrieved combined.
     invoke e vs (''Recent news and website information about '' @ competitor_name) 15
       = Inr retrieved \<and>
     filter_and_combine e retrieved (get_date_n_days_ago e days_back) = Inr combined \<and>
     out = take (min 7 (length combined)) combined \<and>
     length out = min 7 (length combined) \<and>
     prefix out combined \<and>
     (length combined = 15 \<longrightarrow> length out = 7 \<and> out = take 7 combined)"
proof -
  from retrieve_and_filter_context_Inr [OF assms] obtain retrieved combined where
    r: "invoke e vs (''Recent news and website information about '' @ competitor_name) 15
       = Inr retrieved"
    and c: "filter_and_combine e retrieved (get_date_n_days_ago e days_back) = Inr combined"
    and out: "out = take 7 combined"
    by blast
  have "out = take (min 7 (length combined)) combined"
    by (simp add: out min_def)
  moreover have "length out = min 7 (length combined)"
    by (simp add: out)
  moreover have "prefix out combined"
    by (simp add: out take_is_prefix)
  moreover have "length combined = 15 \<longrightarrow> length out = 7 \<and> out = take 7 combined"
    by (simp add: out)
  ultimately show ?thesis using r c by blast
qed

theorem retrieve_and_filter_context_prefix_witness:
  "retrieve_and_filter_context ref_env sample_index ''Acme'' 7 =
     Inr [news_recent, news_plain, web_page, web_page, web_page, web_page, web_page] \<and>
   filter_and_combine ref_env sample_index (get_date_n_days_ago ref_env 7) =
     Inr [news_recent, news_plain, web_page, web_page, web_page, web_page, web_page,
          web_page, web_page] \<and>
   length [news_recent, news_plain, web_page, web_page, web_page, web_page, web_page] =
     min 7 (length [news_recent, news_plain, web_page, web_page, web_page, web_page, web_page,
          web_page, web_page])"
proof -
  have c: "filter_and_combine ref_env sample_index (get_date_n_days_ago ref_env 7) =
     Inr [news_recent, news_plain, web_page, web_page, web_page, web_page, web_page,
          web_page, web_page]"
    by (simp add: filter_and_combine_def sample_index_def
      filter_documents_by_date_def parse_publish_date_def ref_parsers sample_docs
      datetime_ge_def timetuple_def datetime_of_date_def replace_tzinfo_None_def)
  from retrieve_and_filter_context_prefix [OF sample_retrieval] sample_retrieval c
  show ?thesis by simp
qed

text \<open>
  C5: the filter keeps the order of the input inside every source partition (for each
  value of \<open>source\<close>, absent included, the documents of that source in the output are
  a subsequence of those in the input), and the orchestrator builds its list from the
  filtered news documents followed by the website documents, each part in retrieval
  order.
\<close>

theorem filter_keeps_partition_order:
  "(filter_documents_by_date e docs start_date_str = Inr out \<longrightarrow>
      (\<forall>v. subseq (filter (\<lambda>d. metadata d ''source'' = v) out)
                  (filter (\<lambda>d. metadata d ''source'' = v) docs))) \<and>
   (filter_and_combine e retrieved start_date_str = Inr combined \<longrightarrow>
      (\<exists>news_kept.
         filter_documents_by_date e
           (filter (\<lambda>d. metadata d ''source'' = Some ''newsapi'') retrieved) start_date_str
           = Inr news_kept \<and>
         combined =
           news_kept @ filter (\<lambda>d. metadata d ''source'' = Some ''website'') retrieved \<and>
         subseq news_kept (filter (\<lambda>d. metadata d ''source'' = Some ''newsapi'') retrieved) \<and>
         (\<forall>d \<in> set news_kept. metadata d ''source'' = Some ''newsapi'')))"
proof (intro conjI impI allI)
  fix v
  assume "filter_documents_by_date e docs start_date_str = Inr out"
  then obtain sd where "out = filter (keeps e sd) docs"
    using filter_documents_by_date_Inr by blast
  then have "subseq out docs" by simp
  then show "subseq (filter (\<lambda>d. metadata d ''source'' = v) out)
      (filter (\<lambda>d. metadata d ''source'' = v) docs)"
    by (rule subseq_filter)
next
  assume "filter_and_combine e retrieved start_date_str = Inr combined"
  from filter_and_combine_Inr [OF this] obtain news_kept where
    f: "filter_documents_by_date e
       (filter (\<lambda>d. metadata d ''source'' = Some ''newsapi'') retrieved) start_date_str
       = Inr news_kept"
    and c: "combined =
       news_kept @ filter (\<lambda>d. metadata d ''source'' = Some ''website'') retrieved"
    by blast
  from f obtain sd where k: "news_kept =
      filter (keeps e sd) (filter (\<lambda>d. metadata d ''source'' = Some ''newsapi'') retrieved)"
    using filter_documents_by_date_Inr by blast
  have "subseq news_kept (filter (\<lambda>d. metadata d ''source'' = Some ''newsapi'') retrieved)"
    unfolding k by (rule subseq_filter_left)
  moreover have "\<forall>d \<in> set news_kept. metadata d ''source'' = Some ''newsapi''"
    by (simp add: k)
  ultimately show "\<exists>news_kept.
         filter_documents_by_date e
           (filter (\<lambda>d. metadata d ''source'' = Some ''newsapi'') retrieved) start_date_str
           = Inr news_kept \<and>
         combined =
           news_kept @ filter (\<lambda>d. metadata d ''source'' = Some ''website'') retrieved \<and>
         subseq news_kept (filter (\<lambda>d. metadata d ''source'' = Some ''newsapi'') retrieved) \<and>
         (\<forall>d \<in> set news_kept. metadata d ''source'' = Some ''newsapi'')"
    using f c by blast
qed

theorem filter_keeps_partition_order_witness:
  "filter_documents_by_date ref_env sample_index ''2024-05-25'' =
     Inr [news_recent, web_page, web_page, other_page, news_plain,
          web_page, web_page, web_page, web_page, web_page] \<and>
   filter_and_combine ref_env sample_index ''2024-05-25'' =
     Inr ([news_recent, news_plain] @
          [web_page, web_page, web_page, web_page, web_page, web_page, web_page]) \<and>
   filter_documents_by_date ref_env
     (filter (\<lambda>d. metadata d ''source'' = Some ''newsapi'') sample_index) ''2024-05-25''
     = Inr [news_recent, news_plain] \<and>
   subseq [news_recent, news_plain]
     (filter (\<lambda>d. metadata d ''source'' = Some ''newsapi'') sample_index)"
proof -
  have f: "filter_documents_by_date ref_env sample_index ''2024-05-25'' =
     Inr [news_recent, web_page, web_page, other_page, news_plain,
          web_page, web_page, web_page, web_page, web_page]"
    by (simp add: sample_index_def
      filter_documents_by_date_def parse_publish_date_def ref_parsers sample_docs
      datetime_ge_def timetuple_def datetime_of_date_def replace_tzinfo_None_def)
  have c: "filter_and_combine ref_env sample_index ''2024-05-25'' =
     Inr ([news_recent, news_plain] @
          [web_page, web_page, web_page, web_page, web_page, web_page, web_page])"
    by (simp add: filter_and_combine_def sample_index_def
      filter_documents_by_date_def parse_publish_date_def ref_parsers sample_docs
      datetime_ge_def timetuple_def datetime_of_date_def replace_tzinfo_None_def)
  have n: "filter_documents_by_date ref_env
     (filter (\<lambda>d. metadata d ''source'' = Some ''newsapi'') sample_index) ''2024-05-25''
     = Inr [news_recent, news_plain]"
    by (simp add: sample_index_def
      filter_documents_by_date_def parse_publish_date_def ref_parsers sample_docs
      datetime_ge_def timetuple_def datetime_of_date_def replace_tzinfo_None_def)
  from filter_keeps_partition_order
    [of ref_env sample_index "''2024-05-25''"
       "[news_recent, web_page, web_page, other_page, news_plain,
         web_page, web_page, web_page, web_page, web_page]"
       sample_index
       "[news_recent, news_plain] @
          [web_page, web_page, web_page, web_page, web_page, web_page, web_page]"] f c n
  show ?thesis by auto
qed

text \<open>
  C9: a document whose source is neither \<open>newsapi\<close> nor \<open>website\<close> (or that has no
  source) is never in the context the orchestrator returns, since only the documents of
  those two sources are taken from the retrieval; the filter by itself, given such a
  document and a cutoff that is a date, keeps it.
\<close>

theorem retrieve_and_filter_context_two_sources:
  assumes "retrieve_and_filter_context e vs competitor_name days_back = Inr out"
    and "metadata doc ''source'' \<noteq> Some ''newsapi''"
    and "metadata doc ''source'' \<noteq> Some ''website''"
  shows "doc \<notin> set out \<and>
     (\<forall>docs s cutoff. doc \<in> set docs \<longrightarrow> strptime_ymd e s = Some cutoff \<longrightarrow>
        (\<exists>kept. filter_documents_by_date e docs s = Inr kept \<and> doc \<in> set kept))"
proof -
  from retrieve_and_filter_context_Inr [OF assms(1)] obtain retrieved combined where
    c: "filter_and_combine e retrieved (get_date_n_days_ago e days_back) = Inr combined"
    and out: "out = take 7 combined"
    by blast
  from filter_and_combine_Inr [OF c] obtain news_kept where
    f: "filter_documents_by_date e
       (filter (\<lambda>d. metadata d ''source'' = Some ''newsapi'') retrieved)
       (get_date_n_days_ago e days_back) = Inr news_kept"
    and cc: "combined =
       news_kept @ filter (\<lambda>d. metadata d ''source'' = Some ''website'') retrieved"
    by blast
  from f obtain sd where k: "news_kept =
      filter (keeps e sd) (filter (\<lambda>d. metadata d ''source'' = Some ''newsapi'') retrieved)"
    using filter_documents_by_date_Inr by blast
  have "doc \<notin> set combined"
    using assms(2,3) by (auto simp: cc k)
  then have "doc \<notin> set out"
    using out by (auto dest: in_set_takeD)
  moreover have "\<exists>kept. filter_documents_by_date e docs s = Inr kept \<and> doc \<in> set kept"
    if "doc \<in> set docs" "strptime_ymd e s = Some cutoff" for docs s cutoff
    using that assms(2) by (simp add: filter_documents_by_date_parsed keeps_other)
  ultimately show ?thesis by blast
qed

theorem retrieve_and_filter_context_two_sources_witness:
  "retrieve_and_filter_context ref_env sample_index ''Acme'' 7 =
     Inr [news_recent, news_plain, web_page, web_page, web_page, web_page, web_page] \<and>
   metadata other_page ''source'' = Some ''blog'' \<and>
   other_page \<in> set sample_index \<and>
   other_page \<notin> set [news_recent, news_plain, web_page, web_page, web_page, web_page, web_page]"
proof -
  have h2: "metadata other_page ''source'' \<noteq> Some ''newsapi''"
    and h3: "metadata other_page ''source'' \<noteq> Some ''website''"
    by (simp_all add: other_page_def)
  have m: "other_page \<in> set sample_index"
    by (simp add: sample_index_def)
  from retrieve_and_filter_context_two_sources [OF sample_retrieval h2 h3] sample_retrieval m
  show ?thesis by (simp add: other_page_def)
qed

section \<open>Properties of the chunker\<close>

subsection \<open>Stripping\<close>

lemma py_strip_Nil [simp]: "py_strip [] = []"
  by (simp add: py_strip_def)

lemma py_strip_eq_Nil: "py_strip s = [] \<longleftrightarrow> list_all is_whitespace s"
proof
  assume "py_strip s = []"
  then have all: "\<forall>x \<in> set (dropWhile is_whitespace s). is_whitespace x"
    by (simp add: py_strip_def dropWhile_eq_Nil_conv)
  have "dropWhile is_whitespace s = []"
  proof (rule ccontr)
    assume ne: "dropWhile is_whitespace s \<noteq> []"
    then have "\<not> is_whitespace (hd (dropWhile is_whitespace s))"
      by (rule hd_dropWhile)
    moreover have "hd (dropWhile is_whitespace s) \<in> set (dropWhile is_whitespace s)"
      using ne by simp
    ultimately show False using all by blast
  qed
  then show "list_all is_whitespace s"
    by (simp add: dropWhile_eq_Nil_conv list_all_iff)
next
  assume "list_all is_whitespace s"
  then have "\<forall>x \<in> set s. is_whitespace x"
    by (simp add: list_all_iff)
  then have "dropWhile is_whitespace s = []"
    by (simp only: dropWhile_eq_Nil_conv)
  then show "py_strip s = []"
    unfolding py_strip_def by (simp only: rev.simps dropWhile.simps)
qed

lemma py_strip_id: "\<forall>c \<in> set s. \<not> is_whitespace c \<Longrightarrow> py_strip s = s"
proof -
  assume a: "\<forall>c \<in> set s. \<not> is_whitespace c"
  have "dropWhile is_whitespace s = s"
    using a by (cases s) auto
  moreover have "dropWhile is_whitespace (rev s) = rev s"
    using a by (cases "rev s") (auto simp: in_set_conv_decomp dest!: arg_cong [where f = set])
  ultimately show ?thesis by (simp add: py_strip_def)
qed

subsection \<open>The pieces of a text\<close>

lemma concat_split_keep: "concat (split_keep sep piece str) = piece @ str"
proof (induction sep piece str rule: split_keep.induct)
  case (1 sep piece str)
  show ?case
  proof (cases "str = []")
    case True
    then show ?thesis by (subst split_keep.simps) simp
  next
    case False
    show ?thesis
    proof (cases "sep \<noteq> [] \<and> prefix sep str")
      case True
      then obtain rest where "str = sep @ rest"
        by (auto simp: prefix_def)
      with "1.IH"(1) False True show ?thesis
        by (subst split_keep.simps) simp
    next
      case nomatch: False
      with "1.IH"(2) False show ?thesis
        by (subst split_keep.simps) (cases str; auto)
    qed
  qed
qed

lemma concat_filter_nonempty: "concat (filter (\<lambda>s. s \<noteq> []) xs) = concat xs"
  by (induction xs) auto

lemma concat_singletons: "concat (map (\<lambda>c. [c]) str) = str"
  by (induction str) auto

lemma concat_split_text_with_regex: "concat (split_text_with_regex str sep) = str"
  by (simp add: split_text_with_regex_def concat_filter_nonempty concat_split_keep
      concat_singletons)

lemma length_piece_le: "p \<in> set ps \<Longrightarrow> length p \<le> length (concat ps)"
  by (induction ps) auto

lemma total_length_concat: "total_length ps = length (concat ps)"
  by (induction ps) (auto simp: total_length_def)

lemma total_length_append [simp]:
  "total_length (xs @ ys) = total_length xs + total_length ys"
  by (simp add: total_length_def)

subsection \<open>Merging, and the documents shorter than a chunk\<close>

lemma merge_loop_fits:
  "total_length (cur @ ds) \<le> n \<Longrightarrow> merge_loop n k cur ds = join_docs (cur @ ds)"
proof (induction ds arbitrary: cur)
  case Nil
  then show ?case by simp
next
  case (Cons d ds)
  from Cons.prems have "\<not> total_length cur + length d > n"
    by (simp add: total_length_def)
  moreover have "merge_loop n k (cur @ [d]) ds = join_docs ((cur @ [d]) @ ds)"
    using Cons.prems by (intro Cons.IH) simp
  ultimately show ?case by simp
qed

lemma process_splits_short:
  "\<forall>s \<in> set splits. length s < n \<Longrightarrow>
     process_splits n k deeper good splits =
       (if good @ splits = [] then [] else merge_splits n k (good @ splits))"
  by (induction splits arbitrary: good) auto

lemma join_docs_concat:
  "concat ps = str \<Longrightarrow> join_docs ps = (if py_strip str = [] then [] else [py_strip str])"
  by (auto simp: join_docs_def Let_def)

lemma process_short_text:
  assumes "concat splits = str" and "length str < n"
  shows "process_splits n k deeper [] splits =
     (if py_strip str = [] then [] else [py_strip str])"
proof -
  have short: "\<forall>s \<in> set splits. length s < n"
    using assms length_piece_le [of _ splits] by fastforce
  have "total_length ([] @ splits) \<le> n"
    using assms by (simp add: total_length_concat)
  then have "merge_splits n k splits = join_docs splits"
    unfolding merge_splits_def using merge_loop_fits [of "[]" splits n k] by simp
  moreover have "splits = [] \<Longrightarrow> py_strip str = []"
    using assms(1) by auto
  ultimately show ?thesis
    using short assms(1) by (simp add: process_splits_short join_docs_concat)
qed

lemma split_text_short:
  "length str < n \<Longrightarrow>
     split_text n k sep seps str = (if py_strip str = [] then [] else [py_strip str])"
proof (induction seps arbitrary: sep)
  case Nil
  then show ?case
    by (simp add: process_short_text concat_split_text_with_regex)
next
  case (Cons s seps)
  then show ?case
    by (simp add: process_short_text concat_split_text_with_regex)
qed

lemma chunk_text_short:
  "length str < n \<Longrightarrow>
     chunk_text n k str = (if py_strip str = [] then [] else [py_strip str])"
  unfolding chunk_text_def by (rule split_text_short)


subsection \<open>All-whitespace documents\<close>

lemma set_piece_subset: "p \<in> set ps \<Longrightarrow> set p \<subseteq> set (concat ps)"
  by auto

lemma join_docs_whitespace:
  "\<forall>p \<in> set ps. list_all is_whitespace p \<Longrightarrow> join_docs ps = []"
proof -
  assume "\<forall>p \<in> set ps. list_all is_whitespace p"
  then have "list_all is_whitespace (concat ps)"
    by (auto simp: list_all_iff)
  then show ?thesis
    by (simp add: join_docs_def py_strip_eq_Nil)
qed

lemma set_pop_overlap: "set (pop_overlap n k l cur) \<subseteq> set cur"
  by (induction cur) auto

lemma merge_loop_whitespace:
  "\<forall>p \<in> set (cur @ ds). list_all is_whitespace p \<Longrightarrow> merge_loop n k cur ds = []"
proof (induction ds arbitrary: cur)
  case Nil
  then show ?case by (simp add: join_docs_whitespace)
next
  case (Cons d ds)
  have j: "join_docs cur = []"
    using Cons.prems by (simp add: join_docs_whitespace)
  have "\<forall>p \<in> set ((pop_overlap n k (length d) cur @ [d]) @ ds). list_all is_whitespace p"
    using Cons.prems set_pop_overlap [of n k "length d" cur] by auto
  then have a: "merge_loop n k (pop_overlap n k (length d) cur @ [d]) ds = []"
    by (rule Cons.IH)
  have "\<forall>p \<in> set ((cur @ [d]) @ ds). list_all is_whitespace p"
    using Cons.prems by auto
  then have b: "merge_loop n k (cur @ [d]) ds = []"
    by (rule Cons.IH)
  show ?case by (simp add: j a b)
qed

lemma process_splits_whitespace:
  assumes "\<forall>p \<in> set (good @ splits). list_all is_whitespace p"
    and "case deeper of None \<Rightarrow> \<forall>p \<in> set splits. length p < n
         | Some r \<Rightarrow> \<forall>p. list_all is_whitespace p \<longrightarrow> r p = []"
  shows "process_splits n k deeper good splits = []"
  using assms
proof (induction splits arbitrary: good)
  case Nil
  then show ?case
    by (simp add: merge_splits_def merge_loop_whitespace)
next
  case (Cons s splits)
  have m: "merge_splits n k good = []"
    using Cons.prems(1) by (simp add: merge_splits_def merge_loop_whitespace)
  have rest: "case deeper of None \<Rightarrow> \<forall>p \<in> set splits. length p < n
         | Some r \<Rightarrow> \<forall>p. list_all is_whitespace p \<longrightarrow> r p = []"
    using Cons.prems(2) by (cases deeper) auto
  show ?case
  proof (cases "length s < n")
    case True
    have "\<forall>p \<in> set ((good @ [s]) @ splits). list_all is_whitespace p"
      using Cons.prems(1) by auto
    from Cons.IH [OF this rest] True show ?thesis by simp
  next
    case False
    have "\<forall>p \<in> set ([] @ splits). list_all is_whitespace p"
      using Cons.prems(1) by auto
    from Cons.IH [OF this rest] have r: "process_splits n k deeper [] splits = []" .
    have d: "(case deeper of None \<Rightarrow> [s] | Some split_deeper \<Rightarrow> split_deeper s) = []"
      using Cons.prems False by (cases deeper) auto
    show ?thesis using False by (simp add: m r d)
  qed
qed

lemma split_text_with_regex_whitespace:
  "list_all is_whitespace str \<Longrightarrow>
     \<forall>p \<in> set (split_text_with_regex str sep). list_all is_whitespace p"
proof
  fix p
  assume ws: "list_all is_whitespace str" and p: "p \<in> set (split_text_with_regex str sep)"
  from p have "set p \<subseteq> set (concat (split_text_with_regex str sep))"
    by (rule set_piece_subset)
  then have "set p \<subseteq> set str"
    by (simp add: concat_split_text_with_regex)
  with ws show "list_all is_whitespace p"
    by (auto simp: list_all_iff)
qed

lemma characters_short:
  "1 < n \<Longrightarrow> \<forall>p \<in> set (split_text_with_regex str []). length p < n"
  by (auto simp: split_text_with_regex_def)

lemma split_text_whitespace:
  "last (sep # seps) = [] \<Longrightarrow> 1 < n \<Longrightarrow> list_all is_whitespace str \<Longrightarrow>
     split_text n k sep seps str = []"
proof (induction seps arbitrary: sep str)
  case Nil
  then have "sep = []" by simp
  with Nil show ?case
    by (simp add: process_splits_whitespace split_text_with_regex_whitespace characters_short)
next
  case (Cons s seps)
  show ?case
  proof (cases "sep = []")
    case True
    with Cons.prems show ?thesis
      by (simp add: process_splits_whitespace split_text_with_regex_whitespace characters_short)
  next
    case False
    from Cons.prems(1) have l: "last (s # seps) = []" by simp
    have deeper: "\<forall>p. list_all is_whitespace p \<longrightarrow> split_text n k s seps p = []"
      using Cons.IH [OF l Cons.prems(2)] by blast
    show ?thesis
    proof (cases "occurs sep str")
      case True
      have "process_splits n k (Some (split_text n k s seps)) []
          (split_text_with_regex str sep) = []"
        using Cons.prems(3) deeper
        by (intro process_splits_whitespace) (simp_all add: split_text_with_regex_whitespace)
      with False True show ?thesis by simp
    next
      case no: False
      with False Cons.IH [OF l Cons.prems(2) Cons.prems(3)] show ?thesis by simp
    qed
  qed
qed

lemma chunk_text_whitespace:
  "1 < n \<Longrightarrow> list_all is_whitespace str \<Longrightarrow> chunk_text n k str = []"
  unfolding chunk_text_def by (rule split_text_whitespace) simp_all

subsection \<open>Documents without whitespace\<close>

lemma occurs_subset: "occurs sep str \<Longrightarrow> set sep \<subseteq> set str"
proof -
  assume "occurs sep str"
  then obtain suf where "suffix suf str" and "prefix sep suf"
    by (auto simp: occurs_def list_ex_iff in_set_suffixes)
  then show ?thesis
    using set_mono_prefix set_mono_suffix by blast
qed

lemma total_length_singletons [simp]: "total_length (map (\<lambda>c. [c]) w) = length w"
  by (induction w) (auto simp: total_length_def)

lemma pop_overlap_singletons:
  "k < n \<Longrightarrow>
     pop_overlap n k (Suc 0) (map (\<lambda>c. [c]) w) = map (\<lambda>c. [c]) (drop (length w - k) w)"
proof (induction w)
  case Nil
  then show ?case by simp
next
  case (Cons c w)
  have t: "total_length ([c] # map (\<lambda>c. [c]) w) = Suc (length w)"
    using total_length_singletons [of "c # w"] by simp
  show ?case
  proof (cases "Suc (length w) > k")
    case True
    then have "Suc (length w) - k = Suc (length w - k)" by simp
    with True Cons show ?thesis by (simp add: t)
  next
    case False
    with Cons.prems show ?thesis by (simp add: t)
  qed
qed

lemma join_docs_singletons:
  "w \<noteq> [] \<Longrightarrow> \<forall>c \<in> set w. \<not> is_whitespace c \<Longrightarrow> join_docs (map (\<lambda>c. [c]) w) = [w]"
  by (simp add: join_docs_def concat_singletons py_strip_id)

lemma merge_loop_singletons:
  assumes "k < n"
  shows "length w \<le> n \<Longrightarrow> \<forall>c \<in> set (w @ r). \<not> is_whitespace c \<Longrightarrow> w @ r \<noteq> [] \<Longrightarrow>
     merge_loop n k (map (\<lambda>c. [c]) w) (map (\<lambda>c. [c]) r) = hard_cut_windows n k (w @ r)"
proof (induction r arbitrary: w)
  case Nil
  then have "hard_cut_windows n k w = [w]"
    by (subst hard_cut_windows.simps) simp
  with Nil show ?case by (simp add: join_docs_singletons)
next
  case (Cons c r)
  show ?case
  proof (cases "length w = n")
    case True
    with assms have ne: "w \<noteq> []" by auto
    let ?w' = "drop (n - k) w @ [c]"
    have len: "length ?w' \<le> n"
      using True assms by simp
    have "merge_loop n k (map (\<lambda>c. [c]) ?w') (map (\<lambda>c. [c]) r) = hard_cut_windows n k (?w' @ r)"
      using Cons.prems(2) by (intro Cons.IH [OF len]) (auto dest: in_set_dropD)
    moreover have "hard_cut_windows n k (w @ c # r) = w # hard_cut_windows n k (?w' @ r)"
      using True assms by (subst hard_cut_windows.simps) simp
    moreover have "join_docs (map (\<lambda>c. [c]) w) = [w]"
      using ne Cons.prems(2) by (simp add: join_docs_singletons)
    ultimately show ?thesis
      using True ne assms by (simp add: pop_overlap_singletons)
  next
    case False
    with Cons.prems(1) have lt: "length w < n" by simp
    then have len: "length (w @ [c]) \<le> n" by simp
    have "merge_loop n k (map (\<lambda>c. [c]) (w @ [c])) (map (\<lambda>c. [c]) r) =
        hard_cut_windows n k ((w @ [c]) @ r)"
      using Cons.prems(2) by (intro Cons.IH [OF len]) auto
    with lt show ?thesis by simp
  qed
qed

lemma chunk_text_no_whitespace:
  assumes "k < n" and "1 < n" and "\<forall>c \<in> set str. \<not> is_whitespace c" and "str \<noteq> []"
  shows "chunk_text n k str = hard_cut_windows n k str"
proof -
  have nl: "CHR 0x0A \<notin> set str" and sp: "CHR '' '' \<notin> set str"
    using assms(3) by (auto simp: is_whitespace_def)
  have "\<not> occurs [CHR 0x0A, CHR 0x0A] str" "\<not> occurs [CHR 0x0A] str" "\<not> occurs '' '' str"
    using nl sp by (auto dest: occurs_subset)
  then have "chunk_text n k str =
      process_splits n k None [] (split_text_with_regex str [])"
    by (simp add: chunk_text_def)
  also have "split_text_with_regex str [] = map (\<lambda>c. [c]) str"
    by (simp add: split_text_with_regex_def)
  also have "process_splits n k None [] (map (\<lambda>c. [c]) str) =
      merge_splits n k (map (\<lambda>c. [c]) str)"
    using assms(2,4) by (simp add: process_splits_short)
  also have "\<dots> = hard_cut_windows n k ([] @ str)"
    unfolding merge_splits_def
    using merge_loop_singletons [OF assms(1), of "[]" str] assms(3,4) by simp
  finally show ?thesis by simp
qed


subsection \<open>One blank between two words of 600 letters\<close>






subsection \<open>The hard-cut windows\<close>






lemma hard_cut_windows_long:
  "hard_cut_windows 1000 200 (replicate 1500 c) = [replicate 1000 c, replicate 700 c]"
proof -
  have "hard_cut_windows 1000 200 (replicate 1500 c) =
      replicate 1000 c # hard_cut_windows 1000 200 (replicate 700 c)"
    by (subst hard_cut_windows.simps) simp
  moreover have "hard_cut_windows 1000 200 (replicate 700 c) = [replicate 700 c]"
    by (subst hard_cut_windows.simps) simp
  ultimately show ?thesis by simp
qed

subsection \<open>The chunks of the sample documents\<close>


lemma chunks_of_short:
  "length (page_content d) < 1000 \<Longrightarrow> py_strip (page_content d) = page_content d \<Longrightarrow>
     page_content d \<noteq> [] \<Longrightarrow> chunks_of 1000 200 d = [d]"
  by (simp add: chunks_of_def chunk_text_short)

lemma chunker_news_recent: "chunker 1000 200 [news_recent] = [news_recent]"
  by (simp add: chunker_def chunks_of_short news_recent_def py_strip_def is_whitespace_def)

lemma chunker_blank_page: "chunker 1000 200 [blank_page] = []"
  by (simp add: chunker_def chunks_of_def chunk_text_whitespace blank_page_def
      is_whitespace_def)

lemma chunks_of_long_page:
  "chunks_of 1000 200 long_page =
     [\<lparr>page_content = replicate 1000 (CHR ''a''), metadata = metadata long_page\<rparr>,
      \<lparr>page_content = replicate 700 (CHR ''a''), metadata = metadata long_page\<rparr>]"
  by (simp add: chunks_of_def chunk_text_no_whitespace hard_cut_windows_long long_page_def
      is_whitespace_def)

section \<open>Properties of the store step\<close>

text \<open>
  C6: for an empty list of documents, and for documents that the splitter turns into no
  chunk, \<open>process_and_store_documents\<close> returns with the index as it was and no call
  of \<open>add_documents\<close> made: one warning is logged, and the outcome does not depend on
  what \<open>add_documents\<close> would do.
\<close>

theorem process_and_store_documents_nothing_to_store:
  assumes "docs = [] \<or> split_documents e 1000 200 docs = []"
  shows "vector_store (process_and_store_documents e docs st) = vector_store st \<and>
     upsert_calls (process_and_store_documents e docs st) = upsert_calls st \<and>
     app_log (process_and_store_documents e docs st) =
       app_log st @ [if docs = [] then Warning_no_documents
                     else Warning_zero_chunks (length docs)] \<and>
     (\<forall>f. process_and_store_documents (e\<lparr>add_documents := f\<rparr>) docs st =
          process_and_store_documents e docs st)"
  using assms by (auto simp: process_and_store_documents_def)

theorem process_and_store_documents_nothing_to_store_witness:
  "([blank_page] = [] \<or> split_documents ref_env 1000 200 [blank_page] = []) \<and>
   process_and_store_documents ref_env [blank_page] empty_state =
     \<lparr>vector_store = [], upsert_calls = [], app_log = [Warning_zero_chunks 1]\<rparr> \<and>
   process_and_store_documents ref_env [] empty_state =
     \<lparr>vector_store = [], upsert_calls = [], app_log = [Warning_no_documents]\<rparr>"
proof -
  have h: "[blank_page] = [] \<or> split_documents ref_env 1000 200 [blank_page] = []"
    by (simp add: ref_env_def chunker_blank_page)
  have "process_and_store_documents ref_env [blank_page] empty_state =
     \<lparr>vector_store = [], upsert_calls = [], app_log = [Warning_zero_chunks 1]\<rparr>"
    using process_and_store_documents_nothing_to_store [OF h, of empty_state]
    by (simp add: process_and_store_documents_def ref_env_def chunker_blank_page empty_state_def)
  moreover have "process_and_store_documents ref_env [] empty_state =
     \<lparr>vector_store = [], upsert_calls = [], app_log = [Warning_no_documents]\<rparr>"
    by (simp add: process_and_store_documents_def empty_state_def)
  ultimately show ?thesis using h by simp
qed

text \<open>
  C1, as the specification states it, fails: with an index whose write raises, the chunks
  of one news article are handed to \<open>add_documents\<close>, the exception is logged, and the
  run returns an empty context and no error.
\<close>

theorem failed_write_is_not_raised:
  "add_documents failing_env (vector_store empty_state)
       (split_documents failing_env 1000 200 [news_recent])
     = ([], Some (BackendError ''disk full'')) \<and>
   app_store_and_retrieve failing_env [news_recent] empty_state ''Acme'' 7 =
     (Inr [],
      \<lparr>vector_store = [], upsert_calls = [[news_recent]],
       app_log = [Info_adding_chunks 1, Error_adding (BackendError ''disk full'')]\<rparr>)"
  by (simp add: app_store_and_retrieve_def process_and_store_documents_def
      retrieve_and_filter_context_def filter_and_combine_def filter_documents_by_date_def
      failing_env_def ref_env_def chunker_news_recent empty_state_def)

text \<open>
  C1, amended: when \<open>add_documents\<close> raises during the upsert,
  \<open>process_and_store_documents\<close> records the exception in the log and returns; the
  index is what the failed call left, and the run goes on to the retrieval, whose result
  is the result of the run.
\<close>

theorem process_and_store_documents_logs_failure:
  assumes "docs \<noteq> []"
    and "split_documents e 1000 200 docs \<noteq> []"
    and "add_documents e (vector_store st) (split_documents e 1000 200 docs) = (vs', Some ex)"
  shows "process_and_store_documents e docs st =
       \<lparr>vector_store = vs',
        upsert_calls = upsert_calls st @ [split_documents e 1000 200 docs],
        app_log = app_log st @
          [Info_adding_chunks (length (split_documents e 1000 200 docs)), Error_adding ex]\<rparr> \<and>
     fst (app_store_and_retrieve e docs st competitor_name days_back) =
       retrieve_and_filter_context e vs' competitor_name days_back"
  using assms
  by (simp add: app_store_and_retrieve_def process_and_store_documents_def Let_def)

theorem process_and_store_documents_logs_failure_witness:
  "[news_old] \<noteq> [] \<and>
   split_documents failing_env 1000 200 [news_old] \<noteq> [] \<and>
   add_documents failing_env [web_page] (split_documents failing_env 1000 200 [news_old])
     = ([web_page], Some (BackendError ''disk full'')) \<and>
   fst (app_store_and_retrieve failing_env [news_old]
          \<lparr>vector_store = [web_page], upsert_calls = [], app_log = []\<rparr> ''Acme'' 7)
     = retrieve_and_filter_context failing_env [web_page] ''Acme'' 7 \<and>
   retrieve_and_filter_context failing_env [web_page] ''Acme'' 7 = Inr [web_page]"
proof -
  have c: "split_documents failing_env 1000 200 [news_old] = [news_old]"
    by (simp add: failing_env_def ref_env_def chunker_def chunks_of_short news_old_def
        py_strip_def is_whitespace_def)
  have h1: "[news_old] \<noteq> []" by simp
  have h2: "split_documents failing_env 1000 200 [news_old] \<noteq> []"
    by (simp add: c)
  have h3: "add_documents failing_env
       (vector_store \<lparr>vector_store = [web_page], upsert_calls = [], app_log = []\<rparr>)
       (split_documents failing_env 1000 200 [news_old])
     = ([web_page], Some (BackendError ''disk full''))"
    by (simp add: failing_env_def)
  have r: "retrieve_and_filter_context failing_env [web_page] ''Acme'' 7 = Inr [web_page]"
    by (simp add: retrieve_and_filter_context_def filter_and_combine_def
        filter_documents_by_date_def failing_env_def ref_env_def web_page_def)
  from process_and_store_documents_logs_failure [OF h1 h2 h3, of "''Acme''" 7] h2 h3 r
  show ?thesis by simp
qed

section \<open>What the chunker keeps of a document\<close>




text \<open>
  C8: every chunk the chunker derives from a document carries the metadata of that
  document, and every chunk of a list of documents is derived from one of them.
\<close>

theorem chunker_inherits_metadata:
  "(\<forall>c \<in> set (chunks_of 1000 200 d). metadata c = metadata d) \<and>
   (\<forall>c \<in> set (chunker 1000 200 docs).
      \<exists>p \<in> set docs. c \<in> set (chunks_of 1000 200 p) \<and> metadata c = metadata p)"
  by (auto simp: chunker_def chunks_of_def)

theorem chunker_inherits_metadata_witness:
  "chunker 1000 200 [news_recent, long_page] =
     [news_recent,
      \<lparr>page_content = replicate 1000 (CHR ''a''), metadata = metadata long_page\<rparr>,
      \<lparr>page_content = replicate 700 (CHR ''a''), metadata = metadata long_page\<rparr>] \<and>
   last (chunks_of 1000 200 long_page) \<in> set (chunks_of 1000 200 long_page) \<and>
   page_content (last (chunks_of 1000 200 long_page)) = replicate 700 (CHR ''a'') \<and>
   metadata (last (chunks_of 1000 200 long_page)) = metadata long_page \<and>
   metadata long_page = [''source'' \<mapsto> ''website'']"
proof -
  have "chunker 1000 200 [news_recent, long_page] =
      chunker 1000 200 [news_recent] @ chunks_of 1000 200 long_page"
    by (simp add: chunker_def)
  then have c: "chunker 1000 200 [news_recent, long_page] =
     [news_recent,
      \<lparr>page_content = replicate 1000 (CHR ''a''), metadata = metadata long_page\<rparr>,
      \<lparr>page_content = replicate 700 (CHR ''a''), metadata = metadata long_page\<rparr>]"
    by (simp add: chunker_news_recent chunks_of_long_page)
  have l: "last (chunks_of 1000 200 long_page) \<in> set (chunks_of 1000 200 long_page)"
    by (simp add: chunks_of_long_page)
  have p: "page_content (last (chunks_of 1000 200 long_page)) = replicate 700 (CHR ''a'')"
    by (simp add: chunks_of_long_page)
  have m: "metadata long_page = [''source'' \<mapsto> ''website'']"
    by (simp add: long_page_def)
  from chunker_inherits_metadata [of long_page "[news_recent, long_page]"] l
  have "metadata (last (chunks_of 1000 200 long_page)) = metadata long_page"
    by blast
  with c l p m show ?thesis by simp
qed

end
